theory Spec2Isabelle
  imports
    Main
    "HOL-Library.Sublist"
    "HOL-Library.Char_ord"
    "HOL-Library.List_Lexorder"
    "HOL-Library.Multiset"
    "HOL-Library.Word"
begin

section \<open>Strings and paths\<close>

text \<open>
  Go strings are byte sequences; they are modelled as \<^typ>\<open>string\<close> (a list of
  8-bit characters). The handler of \<^verbatim>\<open>server.go\<close> calls a few functions of Go's
  standard library (\<^verbatim>\<open>strings\<close>, \<^verbatim>\<open>path/filepath\<close>); they are modelled here as
  the library documents and implements them on a host whose path separator is
  \<^verbatim>\<open>/\<close> (\<^verbatim>\<open>filepath.Separator\<close> on Unix).
\<close>

definition osPathSeparator :: string where
  "osPathSeparator = ''/''"

definition IsPathSeparator :: "char \<Rightarrow> bool" where
  "IsPathSeparator c = (c = CHR ''/'')"

text \<open>\<^verbatim>\<open>strings.HasPrefix(s, prefix)\<close>:
  \<^verbatim>\<open>len(s) >= len(prefix) && s[:len(prefix)] == prefix\<close>.\<close>

definition HasPrefix :: "string \<Rightarrow> string \<Rightarrow> bool" where
  "HasPrefix s pre = (length pre \<le> length s \<and> take (length pre) s = pre)"

text \<open>\<^verbatim>\<open>strings.TrimPrefix(s, prefix)\<close>: \<^verbatim>\<open>s\<close> without the leading \<^verbatim>\<open>prefix\<close>, or
  \<^verbatim>\<open>s\<close> itself when it does not start with it.\<close>

definition TrimPrefix :: "string \<Rightarrow> string \<Rightarrow> string" where
  "TrimPrefix s pre = (if HasPrefix s pre then drop (length pre) s else s)"

text \<open>\<^verbatim>\<open>strings.ReplaceAll(s, old, new)\<close> for a one-byte \<^verbatim>\<open>old\<close>, as at its only
  call site (\<^verbatim>\<open>old = "/"\<close>).\<close>

definition ReplaceAll :: "string \<Rightarrow> char \<Rightarrow> string \<Rightarrow> string" where
  "ReplaceAll s old new = concat (map (\<lambda>c. if c = old then new else [c]) s)"

text \<open>The elements of a path: the substrings between separators, empty ones
  included (\<^verbatim>\<open>"/a//b"\<close> has the elements \<^verbatim>\<open>""\<close>, \<^verbatim>\<open>"a"\<close>, \<^verbatim>\<open>""\<close>, \<^verbatim>\<open>"b"\<close>).\<close>

fun path_elems :: "string \<Rightarrow> string list" where
  "path_elems [] = [[]]"
| "path_elems (c # cs) =
     (if IsPathSeparator c then [] # path_elems cs
      else (case path_elems cs of
              [] \<Rightarrow> [[c]]
            | e # es \<Rightarrow> (c # e) # es))"

text \<open>\<^verbatim>\<open>strings.Join(elems, "/")\<close>.\<close>

fun strings_Join :: "string list \<Rightarrow> string" where
  "strings_Join [] = []"
| "strings_Join [e] = e"
| "strings_Join (e # f # es) = e @ CHR ''/'' # strings_Join (f # es)"

text \<open>
  One round of the loop of \<^verbatim>\<open>filepath.Clean\<close>, on whole path elements. The output
  buffer is kept as the list of the elements written so far, last one first.
  An empty element and \<^verbatim>\<open>.\<close> are skipped. On \<^verbatim>\<open>..\<close> the last element written is
  removed when there is one that is not itself \<^verbatim>\<open>..\<close> (the library's
  \<^verbatim>\<open>out.w > dotdot\<close>); otherwise \<^verbatim>\<open>..\<close> is dropped in a rooted path and written
  in a relative one. Any other element is written.
\<close>

fun clean_step :: "bool \<Rightarrow> string list \<Rightarrow> string \<Rightarrow> string list" where
  "clean_step rooted out e =
     (if e = [] \<or> e = ''.'' then out
      else if e = ''..'' then
        (case out of
           [] \<Rightarrow> if rooted then [] else [''..'']
         | x # rest \<Rightarrow> if x = ''..'' then (if rooted then out else ''..'' # out) else rest)
      else e # out)"

text \<open>A plain path element: not empty, not \<^verbatim>\<open>.\<close> or \<^verbatim>\<open>..\<close>, and without a
  separator in it.\<close>

definition plain_elem :: "string \<Rightarrow> bool" where
  "plain_elem e = (e \<noteq> [] \<and> e \<noteq> ''.'' \<and> e \<noteq> ''..'' \<and> CHR ''/'' \<notin> set e)"

text \<open>\<^verbatim>\<open>filepath.Clean(path)\<close>: the empty path is \<^verbatim>\<open>.\<close>; a rooted path keeps its
  leading separator; a relative path with nothing left is \<^verbatim>\<open>.\<close>.\<close>

definition filepath_Clean :: "string \<Rightarrow> string" where
  "filepath_Clean p =
     (case p of
        [] \<Rightarrow> ''.''
      | c # _ \<Rightarrow>
          (let rooted = IsPathSeparator c;
               out = rev (foldl (clean_step rooted) [] (path_elems p))
           in if rooted then CHR ''/'' # strings_Join out
              else if out = [] then ''.''
              else strings_Join out))"

text \<open>\<^verbatim>\<open>filepath.Join(elem...)\<close>: the elements from the first non-empty one on,
  joined with the separator and cleaned; the empty string when all are empty.\<close>

fun filepath_Join :: "string list \<Rightarrow> string" where
  "filepath_Join [] = []"
| "filepath_Join (e # es) =
     (if e \<noteq> [] then filepath_Clean (strings_Join (e # es)) else filepath_Join es)"

declare filepath_Join.simps [simp del]

text \<open>\<^verbatim>\<open>filepath.Base(path)\<close>: the last element of the path; trailing separators
  are removed first; \<^verbatim>\<open>.\<close> for the empty path, the separator for a path of
  separators only.\<close>

definition filepath_Base :: "string \<Rightarrow> string" where
  "filepath_Base p =
     (if p = [] then ''.''
      else (let q = rev (dropWhile IsPathSeparator (rev p));
                b = rev (takeWhile (\<lambda>c. \<not> IsPathSeparator c) (rev q))
            in if b = [] then osPathSeparator else b))"

section \<open>The handler's configuration and path resolution\<close>

record fileHandler =
  route :: string
  path :: string
  allowUpload :: bool
  allowDelete :: bool

text \<open>
  The first statements of \<^verbatim>\<open>ServeHTTP\<close>: the request's URL path gets a leading
  \<^verbatim>\<open>/\<close> when it has none, the route is trimmed from its front (as \<^verbatim>\<open>route\<close>, then as
  \<^verbatim>\<open>"/" + route\<close>), the URL separators become the host's, and the result is cleaned
  and joined onto the mount's root.
\<close>

definition route_relative :: "fileHandler \<Rightarrow> string \<Rightarrow> string" where
  "route_relative f urlPath0 =
     (let urlPath = (if \<not> HasPrefix urlPath0 ''/'' then ''/'' @ urlPath0 else urlPath0);
          urlPath = TrimPrefix urlPath (route f);
          urlPath = TrimPrefix urlPath (''/'' @ route f)
      in urlPath)"

definition resolve_osPath :: "fileHandler \<Rightarrow> string \<Rightarrow> string" where
  "resolve_osPath f urlPath0 =
     (let urlPath = route_relative f urlPath0;
          osPath = ReplaceAll urlPath CHR ''/'' osPathSeparator;
          osPath = filepath_Clean osPath;
          osPath = filepath_Join [path f, osPath]
      in osPath)"

text \<open>A path lies within a root, lexically, when it is the root or continues it
  with a separator: the root is a prefix of the path, and what follows the
  prefix is nothing, or starts with a separator, or the root itself ends with
  one (as the root \<^verbatim>\<open>/\<close> does).\<close>

definition within_root :: "string \<Rightarrow> string \<Rightarrow> bool" where
  "within_root root p =
     (prefix root p \<and>
      (case drop (length root) p of
         [] \<Rightarrow> True
       | c # _ \<Rightarrow> IsPathSeparator c \<or> (root \<noteq> [] \<and> IsPathSeparator (last root))))"

section \<open>Human-readable sizes\<close>

text \<open>\<^verbatim>\<open>fmt.Sprintf("%d", n)\<close>: the decimal digits of an integer, with a minus sign
  for a negative one.\<close>

definition digit_char :: "nat \<Rightarrow> char" where
  "digit_char d = ''0123456789'' ! d"

fun fmt_nat :: "nat \<Rightarrow> string" where
  "fmt_nat n = (if n < 10 then [digit_char n] else fmt_nat (n div 10) @ [digit_char (n mod 10)])"

declare fmt_nat.simps [simp del]

definition fmt_d :: "int \<Rightarrow> string" where
  "fmt_d i = (if i < 0 then CHR ''-'' # fmt_nat (nat (- i)) else fmt_nat (nat i))"

text \<open>
  \<^verbatim>\<open>float64(f)\<close> for an integer: the nearest value with a 53-bit significand, ties to
  the even significand. \<open>ulp_of n\<close> is the spacing of such values around \<open>n\<close>
  (1 below \<open>2^53\<close>, where every integer is represented exactly).
\<close>

fun ulp_of :: "nat \<Rightarrow> nat" where
  "ulp_of n = (if n < 2 ^ 53 then 1 else 2 * ulp_of (n div 2))"

declare ulp_of.simps [simp del]

definition float64_of_nat :: "nat \<Rightarrow> nat" where
  "float64_of_nat n =
     (let u = ulp_of n; q = n div u; r = n mod u
      in if 2 * r < u then q * u
         else if u < 2 * r then (q + 1) * u
         else if even q then q * u else (q + 1) * u)"

definition float64_of_int :: "int \<Rightarrow> int" where
  "float64_of_int i = (if i < 0 then - int (float64_of_nat (nat (- i))) else int (float64_of_nat (nat i)))"

text \<open>
  \<^verbatim>\<open>math.Round(a / x)\<close> for a float64 \<open>a\<close> of integer value and a divisor \<open>x\<close> that
  is a power of two (1024, 1024^2, 1024^3): the float64 quotient is exact, and
  \<^verbatim>\<open>math.Round\<close> takes it to the nearest integer, halves away from zero.
\<close>

definition math_Round_quot :: "int \<Rightarrow> int \<Rightarrow> int" where
  "math_Round_quot a x =
     (if a < 0 then - ((2 * (- a) + x) div (2 * x)) else (2 * a + x) div (2 * x))"

type_synonym fileSizeBytes = "64 word"

definition KB :: int where "KB = 1024"
definition MB :: int where "MB = 1024 * KB"
definition GB :: int where "GB = 1024 * MB"

text \<open>The closure \<^verbatim>\<open>divBy\<close> of \<^verbatim>\<open>fileSizeBytes.String\<close>:
  \<^verbatim>\<open>int(math.Round(float64(f) / float64(x)))\<close>.\<close>

definition divBy :: "fileSizeBytes \<Rightarrow> int \<Rightarrow> int" where
  "divBy f x = math_Round_quot (float64_of_int (sint f)) x"

definition fileSizeBytes_String :: "fileSizeBytes \<Rightarrow> string" where
  "fileSizeBytes_String f =
     (if sint f < KB then fmt_d (sint f)
      else if sint f < MB then fmt_d (divBy f KB) @ ''K''
      else if sint f < GB then fmt_d (divBy f MB) @ ''M''
      else fmt_d (divBy f GB) @ ''G'')"

text \<open>
  The size string as the specification words it: below 1024 the plain digits;
  above, the count divided by 1024, 1024^2 or 1024^3 and rounded to the nearest
  integer (a half rounds up, as in \<^verbatim>\<open>1536 -> "2K"\<close>), with the suffix K, M or G.
\<close>

definition nearest_quot :: "int \<Rightarrow> int \<Rightarrow> int" where
  "nearest_quot n x = (2 * n + x) div (2 * x)"

definition spec_size_string :: "int \<Rightarrow> string" where
  "spec_size_string n =
     (if n < 1024 then fmt_d n
      else if n < 1024 ^ 2 then fmt_d (nearest_quot n 1024) @ ''K''
      else if n < 1024 ^ 3 then fmt_d (nearest_quot n (1024 ^ 2)) @ ''M''
      else fmt_d (nearest_quot n (1024 ^ 3)) @ ''G'')"

section \<open>The filesystem, requests and responses\<close>

text \<open>
  The handler reads and writes the host's filesystem. It is modelled as a map from
  (cleaned, absolute) path strings to nodes; a regular file carries its bytes.
  What the operating system may refuse beyond that (permissions, I/O errors) is
  an injected fault: a function from the system call and the path to the error
  it returns, if any. The entries \<^verbatim>\<open>Readdir\<close> returns for a directory, in directory
  order, are a component of their own; no property below relates them to the
  map of nodes.

  The functions \<^verbatim>\<open>zip\<close> and \<^verbatim>\<open>tarGz\<close> are defined in files of the repository
  other than \<^verbatim>\<open>server.go\<close>; the handler only calls them. They are parameters of
  the model (\<open>zip_archive\<close> and \<open>tarGz_archive\<close>): for a path, the bytes they
  write to the response before they return, and the error they return, if any.
\<close>

datatype os_error = ErrNotExist | ErrPermission | ErrIsDir | ErrMissingFile | ErrOther

datatype fs_node = File string | Dir

datatype syscall = SysStat | SysOpen | SysReaddir | SysOpenFile | SysCopy | SysRemove | SysExecute

record FileInfo =
  info_Name :: string
  info_Size :: fileSizeBytes
  info_IsDir :: bool
  info_ModTime :: string

record world =
  nodes :: "string \<rightharpoonup> fs_node"
  fault :: "syscall \<Rightarrow> string \<Rightarrow> os_error option"
  dir_entries :: "string \<Rightarrow> FileInfo list"
  copy_written :: "string \<Rightarrow> nat"
  zip_archive :: "string \<Rightarrow> string \<times> os_error option"
  tarGz_archive :: "string \<Rightarrow> string \<times> os_error option"

definition node_IsDir :: "fs_node \<Rightarrow> bool" where
  "node_IsDir n = (case n of Dir \<Rightarrow> True | File _ \<Rightarrow> False)"

text \<open>\<^verbatim>\<open>os.Stat(path)\<close>: the node at the path, \<^verbatim>\<open>ErrNotExist\<close> when there is none.\<close>

definition os_Stat :: "world \<Rightarrow> string \<Rightarrow> os_error + fs_node" where
  "os_Stat wld p =
     (case fault wld SysStat p of
        Some e \<Rightarrow> Inl e
      | None \<Rightarrow> (case nodes wld p of None \<Rightarrow> Inl ErrNotExist | Some n \<Rightarrow> Inr n))"

text \<open>\<^verbatim>\<open>os.Open(path)\<close> followed by \<^verbatim>\<open>d.Readdir(-1)\<close>: the entries of a directory,
  in directory order.\<close>

definition os_Open :: "world \<Rightarrow> string \<Rightarrow> os_error + fs_node" where
  "os_Open wld p =
     (case fault wld SysOpen p of
        Some e \<Rightarrow> Inl e
      | None \<Rightarrow> (case nodes wld p of None \<Rightarrow> Inl ErrNotExist | Some n \<Rightarrow> Inr n))"

definition Readdir :: "world \<Rightarrow> string \<Rightarrow> fs_node \<Rightarrow> os_error + FileInfo list" where
  "Readdir wld p d =
     (case fault wld SysReaddir p of
        Some e \<Rightarrow> Inl e
      | None \<Rightarrow> (case d of File _ \<Rightarrow> Inl ErrOther | Dir \<Rightarrow> Inr (dir_entries wld p)))"

text \<open>
  \<^verbatim>\<open>os.OpenFile(path, os.O_CREATE|os.O_WRONLY, 0600)\<close>: a directory cannot be opened
  for writing; a missing file is created empty; an existing file is opened as it
  is, at offset 0 (the flags do not include \<^verbatim>\<open>O_TRUNC\<close>).
\<close>

definition os_OpenFile :: "world \<Rightarrow> string \<Rightarrow> os_error + world" where
  "os_OpenFile wld p =
     (case fault wld SysOpenFile p of
        Some e \<Rightarrow> Inl e
      | None \<Rightarrow>
          (case nodes wld p of
             None \<Rightarrow> Inr (wld\<lparr>nodes := (nodes wld)(p \<mapsto> File [])\<rparr>)
           | Some Dir \<Rightarrow> Inl ErrIsDir
           | Some (File _) \<Rightarrow> Inr wld))"

text \<open>Writing \<open>bs\<close> at offset 0 of a file whose bytes are \<open>old\<close>: the bytes
  beyond the written ones stay.\<close>

definition write_at_start :: "string \<Rightarrow> string \<Rightarrow> string" where
  "write_at_start old bs = bs @ drop (length bs) old"

text \<open>
  \<^verbatim>\<open>io.Copy(out, in)\<close> into the file just opened: all of \<open>bs\<close> is written from
  offset 0 on. When the copy fails, the bytes written before the failure
  (\<open>copy_written\<close> of them) are in the file.
\<close>

definition io_Copy :: "world \<Rightarrow> string \<Rightarrow> string \<Rightarrow> world \<times> os_error option" where
  "io_Copy wld p bs =
     (case nodes wld p of
        Some (File old) \<Rightarrow>
          (case fault wld SysCopy p of
             Some e \<Rightarrow>
               (wld\<lparr>nodes := (nodes wld)(p \<mapsto> File (write_at_start old (take (copy_written wld p) bs)))\<rparr>,
                Some e)
           | None \<Rightarrow> (wld\<lparr>nodes := (nodes wld)(p \<mapsto> File (write_at_start old bs))\<rparr>, None))
      | _ \<Rightarrow> (wld, Some ErrOther))"

text \<open>\<^verbatim>\<open>os.Remove(path)\<close>: removes a file, or a directory without entries.\<close>

definition os_Remove :: "world \<Rightarrow> string \<Rightarrow> os_error + world" where
  "os_Remove wld p =
     (case fault wld SysRemove p of
        Some e \<Rightarrow> Inl e
      | None \<Rightarrow>
          (case nodes wld p of
             None \<Rightarrow> Inl ErrNotExist
           | Some (File _) \<Rightarrow> Inr (wld\<lparr>nodes := (nodes wld)(p := None)\<rparr>)
           | Some Dir \<Rightarrow>
               if dir_entries wld p = [] then Inr (wld\<lparr>nodes := (nodes wld)(p := None)\<rparr>)
               else Inl ErrOther))"

text \<open>
  The request, as far as the handler reads it: the method, the URL's path, its
  parsed query (\<^verbatim>\<open>r.URL.Query()\<close>, a map from keys to their values in order), the
  URL as a string (\<^verbatim>\<open>r.URL.String()\<close>), the error of \<^verbatim>\<open>r.ParseForm()\<close> if any, and
  the result of \<^verbatim>\<open>r.FormFile("file")\<close>: the part's bytes and its declared
  filename, or an error (\<^verbatim>\<open>http.ErrMissingFile\<close> when the form has no such part).
\<close>

record Request =
  Method :: string
  URL_Path :: string
  URL_Query :: "string \<rightharpoonup> string list"
  URL_String :: string
  ParseForm :: "os_error option"
  FormFile :: "os_error + (string \<times> string)"

text \<open>\<^verbatim>\<open>url.Values.Get(key)\<close>: the first value of the key, the empty string when
  there is none.\<close>

definition Values_Get :: "(string \<rightharpoonup> string list) \<Rightarrow> string \<Rightarrow> string" where
  "Values_Get v key = (case v key of None \<Rightarrow> [] | Some [] \<Rightarrow> [] | Some (x # _) \<Rightarrow> x)"

record directoryListingFileData =
  Name :: string
  Size :: fileSizeBytes
  IsDir :: bool
  URL :: string
  LastModified :: string

text \<open>Of \<^verbatim>\<open>directoryListingData\<close> the model keeps the list of files and the upload
  flag; the title and the parent and archive links are computed from the URL
  alone and are left out.\<close>

record directoryListingData =
  Files :: "directoryListingFileData list"
  AllowUpload :: bool

text \<open>
  The response, as \<^verbatim>\<open>http.ResponseWriter\<close> builds it: the header map, the status
  code once it is written, and the body written so far. \<^verbatim>\<open>WriteHeader\<close> fixes the
  status code at its first call and is ignored afterwards; a \<^verbatim>\<open>Write\<close> before
  any \<^verbatim>\<open>WriteHeader\<close> writes the status 200 first. A handler that returns without
  writing anything answers 200.
\<close>

datatype body_part =
    Bytes string
  | ListingPage directoryListingData
  | ServedFile string

record ResponseWriter =
  Header :: "string \<rightharpoonup> string"
  status :: "nat option"
  body :: "body_part list"

definition new_response :: ResponseWriter where
  "new_response = \<lparr>Header = Map.empty, status = None, body = []\<rparr>"

definition Header_Set :: "ResponseWriter \<Rightarrow> string \<Rightarrow> string \<Rightarrow> ResponseWriter" where
  "Header_Set w k v = w\<lparr>Header := (Header w)(k \<mapsto> v)\<rparr>"

definition WriteHeader :: "ResponseWriter \<Rightarrow> nat \<Rightarrow> ResponseWriter" where
  "WriteHeader w code = (if status w = None then w\<lparr>status := Some code\<rparr> else w)"

definition Write :: "ResponseWriter \<Rightarrow> body_part \<Rightarrow> ResponseWriter" where
  "Write w b = (let w = WriteHeader w 200 in w\<lparr>body := body w @ [b]\<rparr>)"

definition final_status :: "ResponseWriter \<Rightarrow> nat" where
  "final_status w = (case status w of None \<Rightarrow> 200 | Some code \<Rightarrow> code)"

text \<open>\<^verbatim>\<open>http.StatusText(code)\<close>, for the codes the handler uses; the library
  returns the empty string for a code it does not know.\<close>

definition StatusText :: "nat \<Rightarrow> string" where
  "StatusText code =
     (if code = 200 then ''OK''
      else if code = 303 then ''See Other''
      else if code = 403 then ''Forbidden''
      else if code = 404 then ''Not Found''
      else if code = 500 then ''Internal Server Error''
      else [])"

section \<open>The handler\<close>

definition tarGzKey :: string where "tarGzKey = ''tar.gz''"
definition tarGzValue :: string where "tarGzValue = ''true''"
definition tarGzContentType :: string where "tarGzContentType = ''application/x-tar+gzip''"
definition zipKey :: string where "zipKey = ''zip''"
definition zipValue :: string where "zipValue = ''true''"
definition zipContentType :: string where "zipContentType = ''application/zip''"

definition MethodPost :: string where "MethodPost = ''POST''"
definition MethodDelete :: string where "MethodDelete = ''DELETE''"

definition StatusForbidden :: nat where "StatusForbidden = 403"
definition StatusNotFound :: nat where "StatusNotFound = 404"
definition StatusInternalServerError :: nat where "StatusInternalServerError = 500"

text \<open>\<^verbatim>\<open>serveStatus\<close>: the status code, then its text as the body. (The error of
  the write is returned and dropped by every caller.)\<close>

definition serveStatus :: "ResponseWriter \<Rightarrow> nat \<Rightarrow> ResponseWriter" where
  "serveStatus w code = Write (WriteHeader w code) (Bytes (StatusText code))"

text \<open>The \<^verbatim>\<open>%q\<close> of the \<^verbatim>\<open>Content-Disposition\<close> header: the name in double
  quotes, a double quote or backslash in it escaped by a backslash. (The library
  also escapes bytes that are not printable.)\<close>

definition fmt_q :: "string \<Rightarrow> string" where
  "fmt_q name =
     [CHR 0x22] @
     concat (map (\<lambda>c. if c = CHR 0x22 \<or> c = CHR 0x5C then [CHR 0x5C, c] else [c]) name) @
     [CHR 0x22]"

text \<open>What an archive function does to the response: it writes its bytes, when
  it has any, and returns its error.\<close>

definition write_archive :: "ResponseWriter \<Rightarrow> string \<times> os_error option \<Rightarrow> ResponseWriter \<times> os_error option" where
  "write_archive w res =
     (case res of (bs, err) \<Rightarrow> (if bs = [] then w else Write w (Bytes bs), err))"

definition serveTarGz :: "world \<Rightarrow> ResponseWriter \<Rightarrow> string \<Rightarrow> ResponseWriter \<times> os_error option" where
  "serveTarGz wld w p =
     (let w = Header_Set w ''Content-Type'' tarGzContentType;
          name = filepath_Base p @ ''.tar.gz'';
          w = Header_Set w ''Content-Disposition'' (''attachment; filename='' @ fmt_q name)
      in write_archive w (tarGz_archive wld p))"

definition serveZip :: "world \<Rightarrow> ResponseWriter \<Rightarrow> string \<Rightarrow> ResponseWriter \<times> os_error option" where
  "serveZip wld w osPath =
     (let w = Header_Set w ''Content-Type'' zipContentType;
          name = filepath_Base osPath @ ''.zip'';
          w = Header_Set w ''Content-Disposition'' (''attachment; filename='' @ fmt_q name)
      in write_archive w (zip_archive wld osPath))"

text \<open>
  \<^verbatim>\<open>sort.Slice(files, less)\<close>. The library sorts a short slice by insertion: each
  element in turn moves towards the front while it is less than the element
  before it. (Longer slices are sorted by another algorithm, to the same sorted
  arrangement of the elements; \<^verbatim>\<open>sort.Slice\<close> does not promise an order among
  elements that compare equal.)
\<close>

fun insert_less :: "('a \<Rightarrow> 'a \<Rightarrow> bool) \<Rightarrow> 'a \<Rightarrow> 'a list \<Rightarrow> 'a list" where
  "insert_less lt x [] = [x]"
| "insert_less lt x (y # ys) =
     (if lt x y then x # y # ys else y # insert_less lt x ys)"

definition sort_Slice :: "'a list \<Rightarrow> ('a \<Rightarrow> 'a \<Rightarrow> bool) \<Rightarrow> 'a list" where
  "sort_Slice xs lt = foldl (\<lambda>acc x. insert_less lt x acc) [] xs"

text \<open>One row of the listing, the body of the loop over \<^verbatim>\<open>files\<close> in \<^verbatim>\<open>serveDir\<close>:
  a directory's name gets the separator appended; the row's URL is the
  request's path joined with the name (\<^verbatim>\<open>path.Join\<close>, which cleans as
  \<^verbatim>\<open>filepath.Join\<close> does for \<^verbatim>\<open>/\<close>), with a final \<^verbatim>\<open>/\<close> for a directory.\<close>

definition fileData :: "Request \<Rightarrow> FileInfo \<Rightarrow> directoryListingFileData" where
  "fileData r d =
     (let name = (if info_IsDir d then info_Name d @ osPathSeparator else info_Name d);
          url_Path = filepath_Join [URL_Path r, name];
          url_Path = (if info_IsDir d then url_Path @ ''/'' else url_Path)
      in \<lparr>Name = name, Size = info_Size d, IsDir = info_IsDir d,
          URL = url_Path, LastModified = info_ModTime d\<rparr>)"

definition serveDir ::
  "fileHandler \<Rightarrow> world \<Rightarrow> ResponseWriter \<Rightarrow> Request \<Rightarrow> string \<Rightarrow> ResponseWriter \<times> os_error option" where
  "serveDir f wld w r osPath =
     (case os_Open wld osPath of
        Inl err \<Rightarrow> (w, Some err)
      | Inr d \<Rightarrow>
          (case Readdir wld osPath d of
             Inl err \<Rightarrow> (w, Some err)
           | Inr files0 \<Rightarrow>
               (let files = sort_Slice files0 (\<lambda>fi fj. info_Name fi < info_Name fj);
                    w = Header_Set w ''Content-Type'' ''text/html; charset=utf-8'';
                    data = \<lparr>Files = map (fileData r) files, AllowUpload = allowUpload f\<rparr>
                in (case fault wld SysExecute osPath of
                      Some err \<Rightarrow> (w, Some err)
                    | None \<Rightarrow> (Write w (ListingPage data), None)))))"

definition serveUploadTo ::
  "world \<Rightarrow> ResponseWriter \<Rightarrow> Request \<Rightarrow> string \<Rightarrow> world \<times> ResponseWriter \<times> os_error option" where
  "serveUploadTo wld w r osPath =
     (case ParseForm r of
        Some err \<Rightarrow> (wld, w, Some err)
      | None \<Rightarrow>
          (case FormFile r of
             Inl err \<Rightarrow>
               (let w = (if err = ErrMissingFile
                         then WriteHeader (Header_Set w ''Location'' (URL_String r)) 303
                         else w)
                in (wld, w, Some err))
           | Inr (content, filename) \<Rightarrow>
               (let outPath = filepath_Join [osPath, filepath_Base filename]
                in (case os_OpenFile wld outPath of
                      Inl err \<Rightarrow> (wld, w, Some err)
                    | Inr wld \<Rightarrow>
                        (case io_Copy wld outPath content of
                           (wld, Some err) \<Rightarrow> (wld, w, Some err)
                         | (wld, None) \<Rightarrow>
                             (wld, WriteHeader (Header_Set w ''Location'' (URL_String r)) 303, None))))))"

text \<open>A branch of the dispatcher that calls a sub-handler answers 500 when the
  sub-handler returns an error.\<close>

definition or_500 :: "ResponseWriter \<times> os_error option \<Rightarrow> ResponseWriter" where
  "or_500 res =
     (case res of (w, err) \<Rightarrow> (if err \<noteq> None then serveStatus w StatusInternalServerError else w))"

text \<open>\<^verbatim>\<open>http.ServeFile(w, r, osPath)\<close>: the library sends the file, with its own
  status codes, ranges and content type (and its own refusal, 400, of a URL path
  with a \<^verbatim>\<open>..\<close> element); the model records the call.\<close>

definition http_ServeFile :: "ResponseWriter \<Rightarrow> string \<Rightarrow> ResponseWriter" where
  "http_ServeFile w osPath = w\<lparr>body := body w @ [ServedFile osPath]\<rparr>"

definition ServeHTTP :: "fileHandler \<Rightarrow> world \<Rightarrow> ResponseWriter \<Rightarrow> Request \<Rightarrow> world \<times> ResponseWriter" where
  "ServeHTTP f wld w r =
     (let osPath = resolve_osPath f (URL_Path r)
      in (case os_Stat wld osPath of
            Inl err \<Rightarrow>
              if err = ErrNotExist then (wld, serveStatus w StatusNotFound)
              else if err = ErrPermission then (wld, serveStatus w StatusForbidden)
              else (wld, serveStatus w StatusInternalServerError)
          | Inr info \<Rightarrow>
              if \<not> allowDelete f \<and> Method r = MethodDelete then
                (wld, serveStatus w StatusForbidden)
              else if \<not> allowUpload f \<and> Method r = MethodPost then
                (wld, serveStatus w StatusForbidden)
              else if Values_Get (URL_Query r) zipKey \<noteq> [] then
                (wld, or_500 (serveZip wld w osPath))
              else if Values_Get (URL_Query r) tarGzKey \<noteq> [] then
                (wld, or_500 (serveTarGz wld w osPath))
              else if allowUpload f \<and> node_IsDir info \<and> Method r = MethodPost then
                (case serveUploadTo wld w r osPath of
                   (wld, w, err) \<Rightarrow> (wld, or_500 (w, err)))
              else if allowDelete f \<and> \<not> node_IsDir info \<and> Method r = MethodDelete then
                (case os_Remove wld osPath of
                   Inl err \<Rightarrow> (wld, serveStatus w StatusInternalServerError)
                 | Inr wld \<Rightarrow> (wld, w))
              else if node_IsDir info then
                (wld, or_500 (serveDir f wld w r osPath))
              else (wld, http_ServeFile w osPath)))"

section \<open>A concrete mount\<close>

text \<open>
  A mount of \<^verbatim>\<open>/srv/data\<close> on the route \<^verbatim>\<open>/\<close>, a filesystem with a few nodes
  inside and one outside the mount, and requests against it. The properties
  below are instantiated on them.
\<close>

definition ex_entry :: "string \<Rightarrow> bool \<Rightarrow> FileInfo" where
  "ex_entry n d =
     \<lparr>info_Name = n, info_Size = 0, info_IsDir = d, info_ModTime = ''2024-01-01 00:00:00''\<rparr>"

definition ex_world :: world where
  "ex_world =
     \<lparr>nodes = [''/srv/data'' \<mapsto> Dir, ''/srv/data/sub'' \<mapsto> Dir,
               ''/srv/data/a.txt'' \<mapsto> File ''hello world'',
               ''/etc/passwd'' \<mapsto> File ''root:x:0:0''],
      fault = (\<lambda>_ _. None),
      dir_entries =
        (\<lambda>p. if p = ''/srv/data/sub''
             then [ex_entry ''b'' False, ex_entry ''A'' False, ex_entry ''a2'' False,
                   ex_entry ''B'' False]
             else []),
      copy_written = (\<lambda>_. 0),
      zip_archive = (\<lambda>p. (''zip of '' @ p, None)),
      tarGz_archive = (\<lambda>p. (''tar.gz of '' @ p, None))\<rparr>"

definition ex_mount :: "bool \<Rightarrow> bool \<Rightarrow> fileHandler" where
  "ex_mount up del = \<lparr>route = ''/'', path = ''/srv/data'', allowUpload = up, allowDelete = del\<rparr>"

definition ex_request :: "string \<Rightarrow> string \<Rightarrow> (string \<rightharpoonup> string list) \<Rightarrow> Request" where
  "ex_request m p q =
     \<lparr>Method = m, URL_Path = p, URL_Query = q, URL_String = p,
      ParseForm = None, FormFile = Inl ErrMissingFile\<rparr>"

definition ex_upload :: "string \<Rightarrow> string \<Rightarrow> string \<Rightarrow> Request" where
  "ex_upload p content filename = (ex_request ''POST'' p Map.empty)\<lparr>FormFile := Inr (content, filename)\<rparr>"

section \<open>Properties of the dispatcher\<close>

lemma Header_serveStatus: "Header (serveStatus w code) = Header w"
  by (simp add: serveStatus_def Write_def WriteHeader_def Let_def)

lemma Header_write_archive: "Header (fst (write_archive w res)) = Header w"
  by (cases res) (simp add: write_archive_def Write_def WriteHeader_def Let_def)

lemma Header_or_500: "Header (or_500 res) = Header (fst res)"
  by (cases res) (simp add: or_500_def Header_serveStatus)

lemma Header_serveZip:
  "Header (or_500 (serveZip wld w p)) ''Content-Type'' = Some zipContentType"
  by (simp add: Header_or_500 serveZip_def Let_def Header_write_archive Header_Set_def)

lemma Header_serveTarGz:
  "Header (or_500 (serveTarGz wld w p)) ''Content-Type'' = Some tarGzContentType"
  by (simp add: Header_or_500 serveTarGz_def Let_def Header_write_archive Header_Set_def)

lemma status_serveStatus_new: "status (serveStatus new_response code) = Some code"
  by (simp add: serveStatus_def Write_def WriteHeader_def Let_def new_response_def)

lemma body_serveStatus_new: "body (serveStatus new_response code) = [Bytes (StatusText code)]"
  by (simp add: serveStatus_def Write_def WriteHeader_def Let_def new_response_def)

lemma resolve_ex_a: "resolve_osPath (ex_mount up del) ''/a.txt'' = ''/srv/data/a.txt''"
  by (simp add: ex_mount_def resolve_osPath_def route_relative_def HasPrefix_def TrimPrefix_def
      ReplaceAll_def filepath_Clean_def filepath_Join.simps IsPathSeparator_def osPathSeparator_def)

lemma resolve_ex_sub: "resolve_osPath (ex_mount up del) ''/sub'' = ''/srv/data/sub''"
  by (simp add: ex_mount_def resolve_osPath_def route_relative_def HasPrefix_def TrimPrefix_def
      ReplaceAll_def filepath_Clean_def filepath_Join.simps IsPathSeparator_def osPathSeparator_def)

lemma resolve_ex_root: "resolve_osPath (ex_mount up del) ''/'' = ''/srv/data''"
  by (simp add: ex_mount_def resolve_osPath_def route_relative_def HasPrefix_def TrimPrefix_def
      ReplaceAll_def filepath_Clean_def filepath_Join.simps IsPathSeparator_def osPathSeparator_def)

lemma stat_ex_a: "os_Stat ex_world ''/srv/data/a.txt'' = Inr (File ''hello world'')"
  by (simp add: os_Stat_def ex_world_def)

lemma stat_ex_sub: "os_Stat ex_world ''/srv/data/sub'' = Inr Dir"
  by (simp add: os_Stat_def ex_world_def)

lemma stat_ex_root: "os_Stat ex_world ''/srv/data'' = Inr Dir"
  by (simp add: os_Stat_def ex_world_def)

text \<open>
  C4. Feature gating: when the target exists (\<^verbatim>\<open>os.Stat\<close> succeeds), a POST to a
  mount that does not allow uploads, and a DELETE to a mount that does not allow
  deletes, are answered 403 with the body \<^verbatim>\<open>Forbidden\<close>, and the filesystem
  is the one before the request: nothing is written, the target is intact.
\<close>

theorem feature_gating:
  assumes "os_Stat wld (resolve_osPath f (URL_Path r)) = Inr info"
    and "(Method r = MethodPost \<and> \<not> allowUpload f) \<or> (Method r = MethodDelete \<and> \<not> allowDelete f)"
  shows "ServeHTTP f wld w r = (wld, serveStatus w StatusForbidden) \<and>
         status (snd (ServeHTTP f wld new_response r)) = Some 403 \<and>
         body (snd (ServeHTTP f wld new_response r)) = [Bytes ''Forbidden'']"
proof -
  have branch: "ServeHTTP f wld w' r = (wld, serveStatus w' StatusForbidden)" for w'
    using assms by (auto simp: ServeHTTP_def Let_def MethodPost_def MethodDelete_def)
  show ?thesis
    by (simp add: branch status_serveStatus_new body_serveStatus_new StatusForbidden_def StatusText_def)
qed

theorem feature_gating_witness:
  "ServeHTTP (ex_mount False False) ex_world new_response (ex_request ''DELETE'' ''/a.txt'' Map.empty)
     = (ex_world, serveStatus new_response StatusForbidden) \<and>
   status (snd (ServeHTTP (ex_mount False False) ex_world new_response
     (ex_request ''DELETE'' ''/a.txt'' Map.empty))) = Some 403 \<and>
   ServeHTTP (ex_mount False False) ex_world new_response (ex_upload ''/'' ''bye'' ''a.txt'')
     = (ex_world, serveStatus new_response StatusForbidden) \<and>
   status (snd (ServeHTTP (ex_mount False False) ex_world new_response
     (ex_upload ''/'' ''bye'' ''a.txt''))) = Some 403"
proof -
  have s1: "os_Stat ex_world (resolve_osPath (ex_mount False False)
      (URL_Path (ex_request ''DELETE'' ''/a.txt'' Map.empty))) = Inr (File ''hello world'')"
    by (simp add: ex_request_def resolve_ex_a stat_ex_a)
  have g1: "(Method (ex_request ''DELETE'' ''/a.txt'' Map.empty) = MethodPost \<and> \<not> allowUpload (ex_mount False False)) \<or>
      (Method (ex_request ''DELETE'' ''/a.txt'' Map.empty) = MethodDelete \<and> \<not> allowDelete (ex_mount False False))"
    by (simp add: ex_request_def ex_mount_def MethodDelete_def)
  have s2: "os_Stat ex_world (resolve_osPath (ex_mount False False)
      (URL_Path (ex_upload ''/'' ''bye'' ''a.txt''))) = Inr Dir"
    by (simp add: ex_upload_def ex_request_def resolve_ex_root stat_ex_root)
  have g2: "(Method (ex_upload ''/'' ''bye'' ''a.txt'') = MethodPost \<and> \<not> allowUpload (ex_mount False False)) \<or>
      (Method (ex_upload ''/'' ''bye'' ''a.txt'') = MethodDelete \<and> \<not> allowDelete (ex_mount False False))"
    by (simp add: ex_upload_def ex_request_def ex_mount_def MethodPost_def)
  from feature_gating [OF s1 g1, of new_response] feature_gating [OF s2 g2, of new_response]
  show ?thesis by (simp add: status_serveStatus_new StatusForbidden_def)
qed

lemma resolve_osPath_flags:
  "resolve_osPath (f\<lparr>allowUpload := up, allowDelete := del\<rparr>) u = resolve_osPath f u"
  by (simp add: resolve_osPath_def route_relative_def)

text \<open>
  C5. Dispatch precedence: a GET request on an existing target whose query has
  both \<^verbatim>\<open>zip=true\<close> and \<^verbatim>\<open>tar.gz=true\<close> gets the zip response (the response of
  \<^verbatim>\<open>serveZip\<close>, with the content type \<^verbatim>\<open>application/zip\<close>), whatever the values
  \<open>up\<close> and \<open>del\<close> of the mount's upload and delete flags.
\<close>

theorem dispatch_precedence:
  assumes "os_Stat wld (resolve_osPath f (URL_Path r)) = Inr info"
    and "Method r = ''GET''"
    and "Values_Get (URL_Query r) zipKey = zipValue"
    and "Values_Get (URL_Query r) tarGzKey = tarGzValue"
  shows "ServeHTTP (f\<lparr>allowUpload := up, allowDelete := del\<rparr>) wld w r =
           (wld, or_500 (serveZip wld w (resolve_osPath f (URL_Path r)))) \<and>
         Header (snd (ServeHTTP (f\<lparr>allowUpload := up, allowDelete := del\<rparr>) wld w r)) ''Content-Type'' =
           Some zipContentType"
proof -
  have branch: "ServeHTTP (f\<lparr>allowUpload := up, allowDelete := del\<rparr>) wld w r =
      (wld, or_500 (serveZip wld w (resolve_osPath f (URL_Path r))))"
    using assms
    by (simp add: ServeHTTP_def Let_def resolve_osPath_flags MethodPost_def MethodDelete_def zipValue_def)
  show ?thesis
    by (simp add: branch Header_serveZip)
qed

lemma get_both: "Values_Get [''zip'' \<mapsto> [''true''], ''tar.gz'' \<mapsto> [''true'']] zipKey = zipValue \<and>
   Values_Get [''zip'' \<mapsto> [''true''], ''tar.gz'' \<mapsto> [''true'']] tarGzKey = tarGzValue"
  by (simp add: Values_Get_def zipKey_def zipValue_def tarGzKey_def tarGzValue_def)

theorem dispatch_precedence_witness:
  "Header (snd (ServeHTTP ((ex_mount True False)\<lparr>allowUpload := False, allowDelete := True\<rparr>) ex_world new_response
      (ex_request ''GET'' ''/sub'' [''zip'' \<mapsto> [''true''], ''tar.gz'' \<mapsto> [''true'']]))) ''Content-Type''
     = Some ''application/zip''"
proof -
  let ?r = "ex_request ''GET'' ''/sub'' [''zip'' \<mapsto> [''true''], ''tar.gz'' \<mapsto> [''true'']]"
  have s: "os_Stat ex_world (resolve_osPath (ex_mount True False) (URL_Path ?r)) = Inr Dir"
    by (simp add: ex_request_def resolve_ex_sub stat_ex_sub)
  have m: "Method ?r = ''GET''"
    by (simp add: ex_request_def)
  have z: "Values_Get (URL_Query ?r) zipKey = zipValue"
    using get_both by (simp add: ex_request_def)
  have t: "Values_Get (URL_Query ?r) tarGzKey = tarGzValue"
    using get_both by (simp add: ex_request_def)
  from dispatch_precedence [OF s m z t, where up = False and del = True and w = new_response]
  have "Header (snd (ServeHTTP ((ex_mount True False)\<lparr>allowUpload := False, allowDelete := True\<rparr>)
      ex_world new_response ?r)) ''Content-Type'' = Some zipContentType"
    by (rule conjunct2)
  then show ?thesis by (simp only: zipContentType_def)
qed

text \<open>
  C10. The archive branches test the query parameter for being non-empty, not
  for being \<^verbatim>\<open>true\<close>: on an existing target, in a request that the two
  feature gates before them let pass, any non-empty value of \<^verbatim>\<open>zip\<close> (as
  \<^verbatim>\<open>Get\<close> reads it: the first one) gives the zip response, and with no such value
  any non-empty value of \<^verbatim>\<open>tar.gz\<close> gives the tar+gzip response.
\<close>

theorem archive_on_any_nonempty_value:
  assumes "os_Stat wld (resolve_osPath f (URL_Path r)) = Inr info"
    and "\<not> (\<not> allowDelete f \<and> Method r = MethodDelete)"
    and "\<not> (\<not> allowUpload f \<and> Method r = MethodPost)"
  shows "(Values_Get (URL_Query r) zipKey \<noteq> [] \<longrightarrow>
            ServeHTTP f wld w r = (wld, or_500 (serveZip wld w (resolve_osPath f (URL_Path r)))) \<and>
            Header (snd (ServeHTTP f wld w r)) ''Content-Type'' = Some zipContentType) \<and>
         (Values_Get (URL_Query r) zipKey = [] \<and> Values_Get (URL_Query r) tarGzKey \<noteq> [] \<longrightarrow>
            ServeHTTP f wld w r = (wld, or_500 (serveTarGz wld w (resolve_osPath f (URL_Path r)))) \<and>
            Header (snd (ServeHTTP f wld w r)) ''Content-Type'' = Some tarGzContentType)"
proof -
  have zip_branch: "ServeHTTP f wld w r = (wld, or_500 (serveZip wld w (resolve_osPath f (URL_Path r))))"
    if "Values_Get (URL_Query r) zipKey \<noteq> []"
    using assms that by (auto simp: ServeHTTP_def Let_def)
  have tar_branch: "ServeHTTP f wld w r = (wld, or_500 (serveTarGz wld w (resolve_osPath f (URL_Path r))))"
    if "Values_Get (URL_Query r) zipKey = []" and "Values_Get (URL_Query r) tarGzKey \<noteq> []"
    using assms that by (auto simp: ServeHTTP_def Let_def)
  show ?thesis
    by (auto simp: zip_branch tar_branch Header_serveZip Header_serveTarGz)
qed

theorem archive_on_any_nonempty_value_witness:
  "Header (snd (ServeHTTP (ex_mount False False) ex_world new_response
      (ex_request ''GET'' ''/sub'' [''zip'' \<mapsto> [''false'']]))) ''Content-Type'' = Some ''application/zip'' \<and>
   Header (snd (ServeHTTP (ex_mount False False) ex_world new_response
      (ex_request ''GET'' ''/sub'' [''zip'' \<mapsto> [''0'']]))) ''Content-Type'' = Some ''application/zip'' \<and>
   Header (snd (ServeHTTP (ex_mount False False) ex_world new_response
      (ex_request ''GET'' ''/sub'' [''tar.gz'' \<mapsto> [''no'']]))) ''Content-Type'' = Some ''application/x-tar+gzip''"
proof -
  have s: "os_Stat ex_world (resolve_osPath (ex_mount False False) (URL_Path (ex_request ''GET'' ''/sub'' q))) = Inr Dir" for q
    by (simp add: ex_request_def resolve_ex_sub stat_ex_sub)
  have d: "\<not> (\<not> allowDelete (ex_mount False False) \<and> Method (ex_request ''GET'' ''/sub'' q) = MethodDelete)" for q
    by (simp add: ex_request_def MethodDelete_def)
  have u: "\<not> (\<not> allowUpload (ex_mount False False) \<and> Method (ex_request ''GET'' ''/sub'' q) = MethodPost)" for q
    by (simp add: ex_request_def MethodPost_def)
  have q1: "Values_Get (URL_Query (ex_request ''GET'' ''/sub'' [''zip'' \<mapsto> [''false'']])) zipKey \<noteq> []"
    by (simp add: ex_request_def Values_Get_def zipKey_def)
  have q2: "Values_Get (URL_Query (ex_request ''GET'' ''/sub'' [''zip'' \<mapsto> [''0'']])) zipKey \<noteq> []"
    by (simp add: ex_request_def Values_Get_def zipKey_def)
  have q3: "Values_Get (URL_Query (ex_request ''GET'' ''/sub'' [''tar.gz'' \<mapsto> [''no'']])) zipKey = [] \<and>
            Values_Get (URL_Query (ex_request ''GET'' ''/sub'' [''tar.gz'' \<mapsto> [''no'']])) tarGzKey \<noteq> []"
    by (simp add: ex_request_def Values_Get_def zipKey_def tarGzKey_def)
  have "Header (snd (ServeHTTP (ex_mount False False) ex_world new_response
      (ex_request ''GET'' ''/sub'' [''zip'' \<mapsto> [''false'']]))) ''Content-Type'' = Some zipContentType"
    using archive_on_any_nonempty_value [OF s d u, where w = new_response] q1 by blast
  moreover have "Header (snd (ServeHTTP (ex_mount False False) ex_world new_response
      (ex_request ''GET'' ''/sub'' [''zip'' \<mapsto> [''0'']]))) ''Content-Type'' = Some zipContentType"
    using archive_on_any_nonempty_value [OF s d u, where w = new_response] q2 by blast
  moreover have "Header (snd (ServeHTTP (ex_mount False False) ex_world new_response
      (ex_request ''GET'' ''/sub'' [''tar.gz'' \<mapsto> [''no'']]))) ''Content-Type'' = Some tarGzContentType"
    using archive_on_any_nonempty_value [OF s d u, where w = new_response] q3 by blast
  ultimately show ?thesis by (simp only: zipContentType_def tarGzContentType_def)
qed

lemma final_status_or_500_archive:
  "final_status (or_500 (write_archive w res)) = 200 \<or> final_status (or_500 (write_archive w res)) = 500"
  if "status w = None"
  using that
  by (cases res)
     (auto simp: or_500_def write_archive_def final_status_def serveStatus_def Write_def
        WriteHeader_def Let_def StatusInternalServerError_def)

lemma final_status_serveZip_new:
  "final_status (or_500 (serveZip wld new_response p)) = 200 \<or>
   final_status (or_500 (serveZip wld new_response p)) = 500"
  unfolding serveZip_def Let_def
  by (rule final_status_or_500_archive) (simp add: Header_Set_def new_response_def)

lemma final_status_serveTarGz_new:
  "final_status (or_500 (serveTarGz wld new_response p)) = 200 \<or>
   final_status (or_500 (serveTarGz wld new_response p)) = 500"
  unfolding serveTarGz_def Let_def
  by (rule final_status_or_500_archive) (simp add: Header_Set_def new_response_def)

lemma final_status_serveDir_new:
  "final_status (or_500 (serveDir f wld new_response r p)) = 200 \<or>
   final_status (or_500 (serveDir f wld new_response r p)) = 500"
  by (auto simp: serveDir_def or_500_def final_status_def serveStatus_def Write_def
        WriteHeader_def Let_def StatusInternalServerError_def Header_Set_def new_response_def
      split: sum.splits option.splits)

lemma fileData_Method: "fileData (r\<lparr>Method := m\<rparr>) = fileData r"
  by (rule ext) (simp add: fileData_def)

lemma serveDir_Method: "serveDir f wld w (r\<lparr>Method := m\<rparr>) p = serveDir f wld w r p"
  by (simp add: serveDir_def fileData_Method Let_def split: sum.splits option.splits)

text \<open>
  C3, as the code has it. A DELETE request on a mount that allows deletes, whose
  target exists and is a directory: the directory is not removed (the
  filesystem is the one before the request), and the request is answered as a
  GET of the directory is, with the zip or tar+gzip archive when the query asks
  for one and with the directory listing otherwise. The status is 200, or 500
  when the archive or the listing fails; it is not 403.
\<close>

theorem delete_directory_not_removed:
  assumes "allowDelete f"
    and "Method r = MethodDelete"
    and "os_Stat wld (resolve_osPath f (URL_Path r)) = Inr info"
    and "node_IsDir info"
  shows "fst (ServeHTTP f wld w r) = wld \<and>
         ServeHTTP f wld w r = ServeHTTP f wld w (r\<lparr>Method := ''GET''\<rparr>) \<and>
         (final_status (snd (ServeHTTP f wld new_response r)) = 200 \<or>
          final_status (snd (ServeHTTP f wld new_response r)) = 500)"
proof -
  let ?p = "resolve_osPath f (URL_Path r)"
  have branch: "ServeHTTP f wld w' r =
      (wld, if Values_Get (URL_Query r) zipKey \<noteq> [] then or_500 (serveZip wld w' ?p)
            else if Values_Get (URL_Query r) tarGzKey \<noteq> [] then or_500 (serveTarGz wld w' ?p)
            else or_500 (serveDir f wld w' r ?p))" for w'
    using assms by (simp add: ServeHTTP_def Let_def MethodPost_def MethodDelete_def)
  have get: "ServeHTTP f wld w (r\<lparr>Method := ''GET''\<rparr>) =
      (wld, if Values_Get (URL_Query r) zipKey \<noteq> [] then or_500 (serveZip wld w ?p)
            else if Values_Get (URL_Query r) tarGzKey \<noteq> [] then or_500 (serveTarGz wld w ?p)
            else or_500 (serveDir f wld w r ?p))"
    using assms by (simp add: ServeHTTP_def Let_def MethodPost_def MethodDelete_def serveDir_Method)
  have st: "final_status (snd (ServeHTTP f wld new_response r)) = 200 \<or>
            final_status (snd (ServeHTTP f wld new_response r)) = 500"
    using final_status_serveZip_new [of wld ?p] final_status_serveTarGz_new [of wld ?p]
      final_status_serveDir_new [of f wld r ?p]
    by (simp add: branch)
  show ?thesis
    using st by (simp add: branch get)
qed

theorem delete_directory_not_removed_witness:
  "nodes (fst (ServeHTTP (ex_mount True True) ex_world new_response
      (ex_request ''DELETE'' ''/sub'' Map.empty))) ''/srv/data/sub'' = Some Dir \<and>
   (final_status (snd (ServeHTTP (ex_mount True True) ex_world new_response
      (ex_request ''DELETE'' ''/sub'' Map.empty))) = 200 \<or>
    final_status (snd (ServeHTTP (ex_mount True True) ex_world new_response
      (ex_request ''DELETE'' ''/sub'' Map.empty))) = 500)"
proof -
  let ?r = "ex_request ''DELETE'' ''/sub'' Map.empty"
  have a: "allowDelete (ex_mount True True)"
    by (simp add: ex_mount_def)
  have m: "Method ?r = MethodDelete"
    by (simp add: ex_request_def MethodDelete_def)
  have s: "os_Stat ex_world (resolve_osPath (ex_mount True True) (URL_Path ?r)) = Inr Dir"
    by (simp add: ex_request_def resolve_ex_sub stat_ex_sub)
  have d: "node_IsDir Dir"
    by (simp add: node_IsDir_def)
  have n: "nodes ex_world ''/srv/data/sub'' = Some Dir"
    by (simp add: ex_world_def)
  note t = delete_directory_not_removed [OF a m s d, where w = new_response]
  from t have f: "fst (ServeHTTP (ex_mount True True) ex_world new_response ?r) = ex_world"
    by (rule conjunct1)
  from t have st: "final_status (snd (ServeHTTP (ex_mount True True) ex_world new_response ?r)) = 200 \<or>
      final_status (snd (ServeHTTP (ex_mount True True) ex_world new_response ?r)) = 500"
    by blast
  show ?thesis
  proof (intro conjI)
    show "nodes (fst (ServeHTTP (ex_mount True True) ex_world new_response ?r)) ''/srv/data/sub'' = Some Dir"
      by (simp only: f n)
    show "final_status (snd (ServeHTTP (ex_mount True True) ex_world new_response ?r)) = 200 \<or>
      final_status (snd (ServeHTTP (ex_mount True True) ex_world new_response ?r)) = 500"
      by (rule st)
  qed
qed

text \<open>
  C3, as the claim states it, fails: on the mount \<^verbatim>\<open>/srv/data\<close> with deletes
  allowed, \<^verbatim>\<open>DELETE /sub\<close> for the directory \<^verbatim>\<open>/srv/data/sub\<close> is answered with
  the status 200 and the directory's listing, not with 403.
\<close>

theorem delete_directory_counterexample:
  "allowDelete (ex_mount True True) \<and>
   Method (ex_request ''DELETE'' ''/sub'' Map.empty) = MethodDelete \<and>
   os_Stat ex_world (resolve_osPath (ex_mount True True)
      (URL_Path (ex_request ''DELETE'' ''/sub'' Map.empty))) = Inr Dir \<and>
   status (snd (ServeHTTP (ex_mount True True) ex_world new_response
      (ex_request ''DELETE'' ''/sub'' Map.empty))) = Some 200 \<and>
   map Name (concat (map (\<lambda>b. case b of ListingPage d \<Rightarrow> Files d | _ \<Rightarrow> [])
     (body (snd (ServeHTTP (ex_mount True True) ex_world new_response
        (ex_request ''DELETE'' ''/sub'' Map.empty)))))) = [''A'', ''B'', ''a2'', ''b'']"
  by code_simp

section \<open>Uploads\<close>

lemma upload_branch:
  assumes "allowUpload f"
    and "Method r = MethodPost"
    and "os_Stat wld (resolve_osPath f (URL_Path r)) = Inr info"
    and "node_IsDir info"
    and "Values_Get (URL_Query r) zipKey = []"
    and "Values_Get (URL_Query r) tarGzKey = []"
  shows "ServeHTTP f wld w r =
           (case serveUploadTo wld w r (resolve_osPath f (URL_Path r)) of
              (wld', w', err) \<Rightarrow> (wld', or_500 (w', err)))"
  using assms by (simp add: ServeHTTP_def Let_def MethodPost_def MethodDelete_def split: prod.splits)

lemma os_OpenFile_frame:
  "os_OpenFile wld out = Inr wld' \<Longrightarrow> p \<noteq> out \<Longrightarrow> nodes wld' p = nodes wld p"
  by (auto simp: os_OpenFile_def split: option.splits fs_node.splits)

lemma io_Copy_frame:
  "p \<noteq> out \<Longrightarrow> nodes (fst (io_Copy wld out bs)) p = nodes wld p"
  by (auto simp: io_Copy_def split: option.splits fs_node.splits)

lemma serveUploadTo_unfold:
  "serveUploadTo wld w r osPath =
     (case ParseForm r of
        Some err \<Rightarrow> (wld, w, Some err)
      | None \<Rightarrow>
          (case FormFile r of
             Inl err \<Rightarrow>
               (wld, if err = ErrMissingFile
                     then WriteHeader (Header_Set w ''Location'' (URL_String r)) 303 else w, Some err)
           | Inr (content, filename) \<Rightarrow>
               (case os_OpenFile wld (filepath_Join [osPath, filepath_Base filename]) of
                  Inl err \<Rightarrow> (wld, w, Some err)
                | Inr wld1 \<Rightarrow>
                    (let res = io_Copy wld1 (filepath_Join [osPath, filepath_Base filename]) content
                     in (fst res,
                         if snd res = None
                         then WriteHeader (Header_Set w ''Location'' (URL_String r)) 303 else w,
                         snd res)))))"
  by (simp add: serveUploadTo_def Let_def
      split: option.splits sum.splits prod.splits)

text \<open>Whatever the declared filename and the state of the filesystem, an upload
  changes no node but the one at the target directory joined with the base name
  of the declared filename.\<close>

lemma serveUploadTo_frame:
  assumes "FormFile r = Inr (content, filename)"
    and "p \<noteq> filepath_Join [osPath, filepath_Base filename]"
  shows "nodes (fst (serveUploadTo wld w r osPath)) p = nodes wld p"
proof -
  define out where "out = filepath_Join [osPath, filepath_Base filename]"
  have ne: "p \<noteq> out"
    unfolding out_def by (rule assms(2))
  have "nodes (fst (case os_OpenFile wld out of
                      Inl err \<Rightarrow> (wld, w, Some err)
                    | Inr wld1 \<Rightarrow>
                        (let res = io_Copy wld1 out content
                         in (fst res,
                             if snd res = None
                             then WriteHeader (Header_Set w ''Location'' (URL_String r)) 303 else w,
                             snd res)))) p = nodes wld p"
  proof (cases "os_OpenFile wld out")
    case (Inl e)
    then show ?thesis by simp
  next
    case (Inr wld1)
    then show ?thesis
      by (simp add: Let_def io_Copy_frame [OF ne] os_OpenFile_frame [OF Inr ne])
  qed
  then show ?thesis
    unfolding serveUploadTo_unfold out_def using assms(1)
    by (simp split: option.splits)
qed

text \<open>
  C2, at the code. An upload whose target \<open>outPath\<close> (the target directory
  joined with the base name of the declared filename) is an existing file with
  the bytes \<open>old\<close>: the file is opened without truncation and written from
  offset 0, so afterwards it holds the uploaded bytes followed by the bytes of
  \<open>old\<close> beyond their length. No other node changes, and the answer is the
  redirect 303. The file holds exactly the uploaded bytes only when the old
  content was not longer than the new.
\<close>

theorem upload_writes_from_offset_0:
  assumes "allowUpload f"
    and "Method r = MethodPost"
    and "os_Stat wld (resolve_osPath f (URL_Path r)) = Inr info"
    and "node_IsDir info"
    and "Values_Get (URL_Query r) zipKey = []"
    and "Values_Get (URL_Query r) tarGzKey = []"
    and "ParseForm r = None"
    and "FormFile r = Inr (content, filename)"
    and "outPath = filepath_Join [resolve_osPath f (URL_Path r), filepath_Base filename]"
    and "nodes wld outPath = Some (File old)"
    and "fault wld SysOpenFile outPath = None"
    and "fault wld SysCopy outPath = None"
  shows "nodes (fst (ServeHTTP f wld w r)) outPath = Some (File (content @ drop (length content) old)) \<and>
         (\<forall>p. p \<noteq> outPath \<longrightarrow> nodes (fst (ServeHTTP f wld w r)) p = nodes wld p) \<and>
         status (snd (ServeHTTP f wld new_response r)) = Some 303"
proof -
  have up: "serveUploadTo wld w' r (resolve_osPath f (URL_Path r)) =
      (wld\<lparr>nodes := (nodes wld)(outPath \<mapsto> File (write_at_start old content))\<rparr>,
       WriteHeader (Header_Set w' ''Location'' (URL_String r)) 303, None)" for w'
    using assms(7,8,10-12)
    by (simp add: serveUploadTo_unfold assms(9) [symmetric] Let_def os_OpenFile_def io_Copy_def)
  have eq: "ServeHTTP f wld w' r =
      (wld\<lparr>nodes := (nodes wld)(outPath \<mapsto> File (write_at_start old content))\<rparr>,
       WriteHeader (Header_Set w' ''Location'' (URL_String r)) 303)" for w'
    by (simp add: upload_branch [OF assms(1-6)] up or_500_def)
  show ?thesis
    by (simp add: eq write_at_start_def WriteHeader_def Header_Set_def new_response_def)
qed

lemma resolve_ex_root_join:
  "filepath_Join [resolve_osPath (ex_mount True False) ''/'', filepath_Base ''../../a.txt''] = ''/srv/data/a.txt''"
  by code_simp

theorem upload_writes_from_offset_0_witness:
  "nodes ex_world ''/srv/data/a.txt'' = Some (File ''hello world'') \<and>
   nodes (fst (ServeHTTP (ex_mount True False) ex_world new_response
      (ex_upload ''/'' ''bye'' ''../../a.txt''))) ''/srv/data/a.txt'' = Some (File ''byelo world'') \<and>
   nodes (fst (ServeHTTP (ex_mount True False) ex_world new_response
      (ex_upload ''/'' ''bye'' ''../../a.txt''))) ''/etc/passwd'' = nodes ex_world ''/etc/passwd''"
proof -
  let ?r = "ex_upload ''/'' ''bye'' ''../../a.txt''"
  have a: "allowUpload (ex_mount True False)"
    by (simp add: ex_mount_def)
  have m: "Method ?r = MethodPost"
    by (simp add: ex_upload_def ex_request_def MethodPost_def)
  have s: "os_Stat ex_world (resolve_osPath (ex_mount True False) (URL_Path ?r)) = Inr Dir"
    by (simp add: ex_upload_def ex_request_def resolve_ex_root stat_ex_root)
  have d: "node_IsDir Dir"
    by (simp add: node_IsDir_def)
  have z: "Values_Get (URL_Query ?r) zipKey = []"
    by (simp add: ex_upload_def ex_request_def Values_Get_def)
  have t: "Values_Get (URL_Query ?r) tarGzKey = []"
    by (simp add: ex_upload_def ex_request_def Values_Get_def)
  have pf: "ParseForm ?r = None"
    by (simp add: ex_upload_def ex_request_def)
  have ff: "FormFile ?r = Inr (''bye'', ''../../a.txt'')"
    by (simp add: ex_upload_def ex_request_def)
  have o: "''/srv/data/a.txt'' =
      filepath_Join [resolve_osPath (ex_mount True False) (URL_Path ?r), filepath_Base ''../../a.txt'']"
    using resolve_ex_root_join by (simp add: ex_upload_def ex_request_def)
  have n: "nodes ex_world ''/srv/data/a.txt'' = Some (File ''hello world'')"
    by (simp add: ex_world_def)
  have f1: "fault ex_world SysOpenFile ''/srv/data/a.txt'' = None"
    by (simp add: ex_world_def)
  have f2: "fault ex_world SysCopy ''/srv/data/a.txt'' = None"
    by (simp add: ex_world_def)
  note u = upload_writes_from_offset_0 [OF a m s d z t pf ff o n f1 f2, where w = new_response]
  from u have c: "nodes (fst (ServeHTTP (ex_mount True False) ex_world new_response ?r)) ''/srv/data/a.txt''
      = Some (File (''bye'' @ drop (length ''bye'') ''hello world''))"
    by (rule conjunct1)
  from u have fr: "nodes (fst (ServeHTTP (ex_mount True False) ex_world new_response ?r)) ''/etc/passwd''
      = nodes ex_world ''/etc/passwd''"
    by simp
  show ?thesis
    using c fr n by simp
qed

text \<open>
  C6, at the code. A POST to a mount that allows uploads, on an existing
  directory, with a form that has no \<^verbatim>\<open>file\<close> part: \<^verbatim>\<open>serveUploadTo\<close> sets the
  \<^verbatim>\<open>Location\<close> header and writes the status 303, then returns
  \<^verbatim>\<open>http.ErrMissingFile\<close> all the same, and the dispatcher answers the error: its
  \<^verbatim>\<open>WriteHeader(500)\<close> comes after the status is written and is ignored, its body
  \<^verbatim>\<open>Internal Server Error\<close> is written. The response is a 303 redirect to the
  current URL that carries the error text as its body.
\<close>

theorem missing_file_part_response:
  assumes "allowUpload f"
    and "Method r = MethodPost"
    and "os_Stat wld (resolve_osPath f (URL_Path r)) = Inr info"
    and "node_IsDir info"
    and "Values_Get (URL_Query r) zipKey = []"
    and "Values_Get (URL_Query r) tarGzKey = []"
    and "ParseForm r = None"
    and "FormFile r = Inl ErrMissingFile"
  shows "ServeHTTP f wld new_response r =
           (wld, \<lparr>Header = [''Location'' \<mapsto> URL_String r], status = Some 303,
                  body = [Bytes ''Internal Server Error'']\<rparr>)"
proof -
  have up: "serveUploadTo wld new_response r (resolve_osPath f (URL_Path r)) =
      (wld, WriteHeader (Header_Set new_response ''Location'' (URL_String r)) 303, Some ErrMissingFile)"
    using assms(7,8) by (simp add: serveUploadTo_unfold)
  have "ServeHTTP f wld new_response r =
      (wld, or_500 (WriteHeader (Header_Set new_response ''Location'' (URL_String r)) 303,
                    Some ErrMissingFile))"
    by (simp only: upload_branch [OF assms(1-6)] up prod.case)
  then show ?thesis
    by (simp add: or_500_def serveStatus_def Write_def WriteHeader_def Header_Set_def
        new_response_def Let_def StatusInternalServerError_def StatusText_def)
qed

theorem missing_file_part_response_witness:
  "status (snd (ServeHTTP (ex_mount True False) ex_world new_response
      (ex_request ''POST'' ''/sub'' Map.empty))) = Some 303 \<and>
   body (snd (ServeHTTP (ex_mount True False) ex_world new_response
      (ex_request ''POST'' ''/sub'' Map.empty))) = [Bytes ''Internal Server Error'']"
proof -
  let ?r = "ex_request ''POST'' ''/sub'' Map.empty"
  have a: "allowUpload (ex_mount True False)"
    by (simp add: ex_mount_def)
  have m: "Method ?r = MethodPost"
    by (simp add: ex_request_def MethodPost_def)
  have s: "os_Stat ex_world (resolve_osPath (ex_mount True False) (URL_Path ?r)) = Inr Dir"
    by (simp add: ex_request_def resolve_ex_sub stat_ex_sub)
  have d: "node_IsDir Dir"
    by (simp add: node_IsDir_def)
  have z: "Values_Get (URL_Query ?r) zipKey = []"
    by (simp add: ex_request_def Values_Get_def)
  have t: "Values_Get (URL_Query ?r) tarGzKey = []"
    by (simp add: ex_request_def Values_Get_def)
  have pf: "ParseForm ?r = None"
    by (simp add: ex_request_def)
  have ff: "FormFile ?r = Inl ErrMissingFile"
    by (simp add: ex_request_def)
  show ?thesis
    by (simp add: missing_file_part_response [OF a m s d z t pf ff])
qed

section \<open>Size strings\<close>

lemma ulp_of_small: "n < 2 ^ 53 \<Longrightarrow> ulp_of n = 1"
  by (simp add: ulp_of.simps)

lemma float64_of_nat_exact: "n < 2 ^ 53 \<Longrightarrow> float64_of_nat n = n"
  by (simp add: float64_of_nat_def ulp_of_small)

lemma float64_of_int_exact: "0 \<le> i \<Longrightarrow> i < 2 ^ 53 \<Longrightarrow> float64_of_int i = i"
proof -
  assume a: "0 \<le> i" "i < 2 ^ 53"
  then have "nat i < 2 ^ 53"
    by (simp add: nat_less_iff)
  then show ?thesis
    using a by (simp add: float64_of_int_def float64_of_nat_exact)
qed

lemma divBy_exact:
  "0 \<le> sint f \<Longrightarrow> sint f < 2 ^ 53 \<Longrightarrow> divBy f x = nearest_quot (sint f) x"
  by (simp add: divBy_def float64_of_int_exact math_Round_quot_def nearest_quot_def)

lemmas size_eval =
  fileSizeBytes_String_def divBy_def KB_def MB_def GB_def float64_of_int_def math_Round_quot_def
  float64_of_nat_def ulp_of.simps Let_def fmt_d_def fmt_nat.simps digit_char_def

text \<open>
  C7, as the code has it. The size string of 0, 1023, 1024, 1536, 1048576 and
  1073741824 is \<^verbatim>\<open>0\<close>, \<^verbatim>\<open>1023\<close>, \<^verbatim>\<open>1K\<close>, \<^verbatim>\<open>2K\<close>, \<^verbatim>\<open>1M\<close> and \<^verbatim>\<open>1G\<close>; and for
  every byte count below \<open>2^53\<close> the size string is the one the specification
  words: the plain digits below 1024, and above that the count divided by 1024,
  \<open>1024^2\<close> or \<open>1024^3\<close>, rounded to the nearest integer, with the suffix K, M
  or G. (From \<open>2^53\<close> on, the count is first rounded to a float64.)
\<close>

theorem size_formatting:
  "fileSizeBytes_String 0 = ''0'' \<and>
   fileSizeBytes_String 1023 = ''1023'' \<and>
   fileSizeBytes_String 1024 = ''1K'' \<and>
   fileSizeBytes_String 1536 = ''2K'' \<and>
   fileSizeBytes_String 1048576 = ''1M'' \<and>
   fileSizeBytes_String 1073741824 = ''1G'' \<and>
   (sint f < 2 ^ 53 \<longrightarrow> fileSizeBytes_String f = spec_size_string (sint f))"
proof -
  have e1: "fileSizeBytes_String 0 = ''0''" by (simp add: size_eval)
  have e2: "fileSizeBytes_String 1023 = ''1023''" by (simp add: size_eval)
  have e3: "fileSizeBytes_String 1024 = ''1K''" by (simp add: size_eval)
  have e4: "fileSizeBytes_String 1536 = ''2K''" by (simp add: size_eval)
  have e5: "fileSizeBytes_String 1048576 = ''1M''" by (simp add: size_eval)
  have e6: "fileSizeBytes_String 1073741824 = ''1G''" by (simp add: size_eval)
  have g: "fileSizeBytes_String f = spec_size_string (sint f)" if "sint f < 2 ^ 53"
  proof (cases "sint f < 1024")
    case True
    then show ?thesis
      by (simp add: fileSizeBytes_String_def spec_size_string_def KB_def)
  next
    case False
    then have "0 \<le> sint f" by simp
    then have d: "divBy f x = nearest_quot (sint f) x" for x
      using that by (rule divBy_exact)
    show ?thesis
      using False
      by (simp add: fileSizeBytes_String_def spec_size_string_def KB_def MB_def GB_def d)
  qed
  show ?thesis
    using e1 e2 e3 e4 e5 e6 g by blast
qed

theorem size_formatting_witness:
  "sint (1048575 :: 64 word) < 2 ^ 53 \<and> fileSizeBytes_String 1048575 = ''1024K''"
proof -
  have b: "sint (1048575 :: 64 word) < 2 ^ 53" by simp
  have s: "spec_size_string (sint (1048575 :: 64 word)) = ''1024K''"
    by (simp add: spec_size_string_def nearest_quot_def fmt_d_def fmt_nat.simps digit_char_def)
  from size_formatting [of 1048575] b have "fileSizeBytes_String 1048575 = spec_size_string (sint (1048575 :: 64 word))"
    by blast
  with b s show ?thesis by simp
qed

text \<open>
  C7, as the claim states it, fails above \<open>2^53\<close>: the count
  \<open>2^53 + 2^29 - 1 = 9007199791611903\<close> divided by \<open>1024^3\<close> is just below
  8388608.5 and its nearest integer is 8388608, but \<^verbatim>\<open>float64\<close> of the count is
  9007199791611904, the quotient is exactly 8388608.5, and the size string is
  \<^verbatim>\<open>8388609G\<close>.
\<close>

theorem size_formatting_counterexample:
  "fileSizeBytes_String 9007199791611903 = ''8388609G'' \<and>
   spec_size_string (sint (9007199791611903 :: 64 word)) = ''8388608G'' \<and>
   fileSizeBytes_String 9007199791611903 \<noteq> spec_size_string (sint (9007199791611903 :: 64 word))"
proof -
  have c: "fileSizeBytes_String 9007199791611903 = ''8388609G''"
    by (simp add: size_eval)
  have i: "sint (9007199791611903 :: 64 word) = 9007199791611903"
    by simp
  have s: "spec_size_string 9007199791611903 = ''8388608G''"
    by (simp add: spec_size_string_def nearest_quot_def fmt_d_def fmt_nat.simps digit_char_def)
  show ?thesis
    by (simp only: c s i) simp
qed

section \<open>Directory listings\<close>

lemma mset_insert_less: "mset (insert_less lt x ys) = add_mset x (mset ys)"
  by (induction ys) simp_all

lemma mset_foldl_insert_less:
  "mset (foldl (\<lambda>acc x. insert_less lt x acc) acc xs) = mset acc + mset xs"
  by (induction xs arbitrary: acc) (simp_all add: mset_insert_less)

lemma mset_sort_Slice: "mset (sort_Slice xs lt) = mset xs"
  by (simp add: sort_Slice_def mset_foldl_insert_less)

lemma set_insert_less: "set (insert_less lt x ys) = insert x (set ys)"
  by (induction ys) auto

lemma sorted_insert_less:
  fixes key :: "'a \<Rightarrow> 'k::linorder"
  assumes "sorted (map key ys)"
  shows "sorted (map key (insert_less (\<lambda>a b. key a < key b) x ys))"
  using assms
  by (induction ys) (auto simp: set_insert_less)

lemma sorted_foldl_insert_less:
  fixes key :: "'a \<Rightarrow> 'k::linorder"
  assumes "sorted (map key acc)"
  shows "sorted (map key (foldl (\<lambda>acc x. insert_less (\<lambda>a b. key a < key b) x acc) acc xs))"
  using assms
  by (induction xs arbitrary: acc) (simp_all add: sorted_insert_less)

lemma sorted_sort_Slice:
  fixes key :: "'a \<Rightarrow> 'k::linorder"
  shows "sorted (map key (sort_Slice xs (\<lambda>a b. key a < key b)))"
  by (simp add: sort_Slice_def sorted_foldl_insert_less)

text \<open>The names in one directory are distinct, and then the sorted arrangement is
  unique: whatever permutation sorted by name \<^verbatim>\<open>sort.Slice\<close> returns, it is this
  one.\<close>

lemma sorted_by_key_unique:
  fixes key :: "'a \<Rightarrow> 'k::linorder"
  assumes "mset ys = mset xs"
    and "sorted (map key ys)"
    and "distinct (map key xs)"
  shows "ys = sort_Slice xs (\<lambda>a b. key a < key b)"
proof -
  let ?zs = "sort_Slice xs (\<lambda>a b. key a < key b)"
  have m: "mset ?zs = mset ys"
    by (simp add: mset_sort_Slice assms(1))
  have dx: "distinct xs" and inj: "inj_on key (set xs)"
    using assms(3) by (simp_all add: distinct_map)
  have sy: "set ys = set xs" and sz: "set ?zs = set xs"
    using assms(1) m by (metis set_mset_mset)+
  have dy: "distinct (map key ys)"
    using assms(1) assms(3) by (metis distinct_map dx inj mset_eq_imp_distinct_iff sy)
  have dz: "distinct (map key ?zs)"
    by (metis distinct_map dx inj mset_eq_imp_distinct_iff mset_sort_Slice sz)
  have "map key ys = map key ?zs"
    by (rule sorted_distinct_set_unique) (simp_all add: assms(2) sorted_sort_Slice dy dz sy sz)
  then show ?thesis
    using inj sy sz by (simp add: inj_on_map_eq_map)
qed

lemma sort_example:
  assumes "map info_Name xs = [''b'', ''A'', ''a2'', ''B'']"
  shows "map info_Name (sort_Slice xs (\<lambda>fi fj. info_Name fi < info_Name fj)) = [''A'', ''B'', ''a2'', ''b'']"
proof -
  from assms obtain x1 x2 x3 x4 where xs: "xs = [x1, x2, x3, x4]"
    and n: "info_Name x1 = ''b''" "info_Name x2 = ''A''" "info_Name x3 = ''a2''" "info_Name x4 = ''B''"
    by (auto simp: map_eq_Cons_conv)
  show ?thesis
    by (simp add: xs sort_Slice_def n)
qed

lemma serveDir_success:
  assumes "snd (serveDir f wld w r osPath) = None"
  shows "fst (serveDir f wld w r osPath) =
           Write (Header_Set w ''Content-Type'' ''text/html; charset=utf-8'')
             (ListingPage \<lparr>Files = map (fileData r)
                 (sort_Slice (dir_entries wld osPath) (\<lambda>fi fj. info_Name fi < info_Name fj)),
               AllowUpload = allowUpload f\<rparr>)"
  using assms
  by (auto simp: serveDir_def Readdir_def Let_def split: sum.splits option.splits fs_node.splits)

text \<open>
  C8. Listing sort order: the rows of every directory listing are those of the
  directory's entries, arranged in ascending order of their names; the order on
  names is the lexicographic order on byte strings (upper-case letters before
  lower-case ones). A directory whose entries are read as \<^verbatim>\<open>b\<close>, \<^verbatim>\<open>A\<close>, \<^verbatim>\<open>a2\<close>,
  \<^verbatim>\<open>B\<close> is listed as \<^verbatim>\<open>A\<close>, \<^verbatim>\<open>B\<close>, \<^verbatim>\<open>a2\<close>, \<^verbatim>\<open>b\<close>.
\<close>

theorem listing_sort_order:
  assumes "snd (serveDir f wld w r osPath) = None"
  shows "\<exists>files.
           mset files = mset (dir_entries wld osPath) \<and>
           sorted (map info_Name files) \<and>
           (map info_Name (dir_entries wld osPath) = [''b'', ''A'', ''a2'', ''B''] \<longrightarrow>
              map info_Name files = [''A'', ''B'', ''a2'', ''b'']) \<and>
           body (fst (serveDir f wld w r osPath)) =
             body w @ [ListingPage \<lparr>Files = map (fileData r) files, AllowUpload = allowUpload f\<rparr>]"
proof -
  let ?files = "sort_Slice (dir_entries wld osPath) (\<lambda>fi fj. info_Name fi < info_Name fj)"
  have a: "mset ?files = mset (dir_entries wld osPath)"
    by (rule mset_sort_Slice)
  have b: "sorted (map info_Name ?files)"
    by (rule sorted_sort_Slice)
  have c: "map info_Name (dir_entries wld osPath) = [''b'', ''A'', ''a2'', ''B''] \<longrightarrow>
      map info_Name ?files = [''A'', ''B'', ''a2'', ''b'']"
    by (rule impI) (rule sort_example)
  have d: "body (fst (serveDir f wld w r osPath)) =
      body w @ [ListingPage \<lparr>Files = map (fileData r) ?files, AllowUpload = allowUpload f\<rparr>]"
    by (simp add: serveDir_success [OF assms] Write_def WriteHeader_def Header_Set_def Let_def)
  show ?thesis
    by (rule exI [of _ ?files]) (intro conjI a b c d)
qed

lemma serveDir_ex_ok:
  "snd (serveDir (ex_mount False False) ex_world new_response
      (ex_request ''GET'' ''/sub'' Map.empty) ''/srv/data/sub'') = None"
  by code_simp

lemma dir_entries_ex:
  "map info_Name (dir_entries ex_world ''/srv/data/sub'') = [''b'', ''A'', ''a2'', ''B'']"
  by (simp add: ex_world_def ex_entry_def)

theorem listing_sort_order_witness:
  "\<exists>files. map info_Name files = [''A'', ''B'', ''a2'', ''b''] \<and>
     body (fst (serveDir (ex_mount False False) ex_world new_response
        (ex_request ''GET'' ''/sub'' Map.empty) ''/srv/data/sub'')) =
       [ListingPage \<lparr>Files = map (fileData (ex_request ''GET'' ''/sub'' Map.empty)) files,
                     AllowUpload = False\<rparr>]"
proof -
  from listing_sort_order [OF serveDir_ex_ok] obtain files where
    h: "mset files = mset (dir_entries ex_world ''/srv/data/sub'') \<and>
        sorted (map info_Name files) \<and>
        (map info_Name (dir_entries ex_world ''/srv/data/sub'') = [''b'', ''A'', ''a2'', ''B''] \<longrightarrow>
           map info_Name files = [''A'', ''B'', ''a2'', ''b'']) \<and>
        body (fst (serveDir (ex_mount False False) ex_world new_response
           (ex_request ''GET'' ''/sub'' Map.empty) ''/srv/data/sub'')) =
          body new_response @
            [ListingPage \<lparr>Files = map (fileData (ex_request ''GET'' ''/sub'' Map.empty)) files,
                          AllowUpload = allowUpload (ex_mount False False)\<rparr>]" ..
  have names: "map info_Name files = [''A'', ''B'', ''a2'', ''b'']"
    by (rule mp [OF h [THEN conjunct2, THEN conjunct2, THEN conjunct1] dir_entries_ex])
  have page: "body (fst (serveDir (ex_mount False False) ex_world new_response
           (ex_request ''GET'' ''/sub'' Map.empty) ''/srv/data/sub'')) =
          [ListingPage \<lparr>Files = map (fileData (ex_request ''GET'' ''/sub'' Map.empty)) files,
                        AllowUpload = False\<rparr>]"
    using h [THEN conjunct2, THEN conjunct2, THEN conjunct2]
    by (simp add: new_response_def ex_mount_def)
  from names page show ?thesis
    by (intro exI [of _ files] conjI)
qed

section \<open>Path resolution\<close>

lemma ReplaceAll_same: "ReplaceAll s c [c] = s"
  by (induction s) (simp_all add: ReplaceAll_def)

lemma ReplaceAll_sep: "ReplaceAll s CHR ''/'' osPathSeparator = s"
  by (simp add: osPathSeparator_def ReplaceAll_same)

lemma path_elems_not_Nil: "path_elems p \<noteq> []"
  by (induction p) (auto split: list.splits)

lemma path_elems_append_sep: "path_elems (a @ CHR ''/'' # b) = path_elems a @ path_elems b"
proof (induction a)
  case Nil
  show ?case by (simp add: IsPathSeparator_def)
next
  case (Cons c cs)
  obtain e es where es: "path_elems cs = e # es"
    using path_elems_not_Nil [of cs] by (cases "path_elems cs") auto
  show ?case
    by (simp add: Cons.IH es)
qed

lemma clean_step_nonempty:
  "list_all (\<lambda>e. e \<noteq> []) out \<Longrightarrow> list_all (\<lambda>e. e \<noteq> []) (clean_step b out e)"
  by (cases out) auto

lemma foldl_clean_step_nonempty:
  "list_all (\<lambda>e. e \<noteq> []) out \<Longrightarrow> list_all (\<lambda>e. e \<noteq> []) (foldl (clean_step b) out es)"
  by (induction es arbitrary: out) (simp_all add: clean_step_nonempty del: clean_step.simps)

lemma strings_Join_not_Nil:
  "xs \<noteq> [] \<Longrightarrow> list_all (\<lambda>e. e \<noteq> []) xs \<Longrightarrow> strings_Join xs \<noteq> []"
  by (induction xs rule: strings_Join.induct) simp_all

lemma filepath_Clean_not_Nil: "filepath_Clean p \<noteq> []"
proof (cases p)
  case Nil
  then show ?thesis by (simp add: filepath_Clean_def)
next
  case (Cons c cs)
  have nn: "strings_Join (rev (foldl (clean_step b) [] (path_elems p))) \<noteq> []"
    if "foldl (clean_step b) [] (path_elems p) \<noteq> []" for b
  proof (rule strings_Join_not_Nil)
    show "rev (foldl (clean_step b) [] (path_elems p)) \<noteq> []"
      using that by simp
    show "list_all (\<lambda>e. e \<noteq> []) (rev (foldl (clean_step b) [] (path_elems p)))"
      using foldl_clean_step_nonempty [of "[]" b "path_elems p"] by simp
  qed
  show ?thesis
    unfolding filepath_Clean_def Cons list.case Let_def
    using nn [of False] Cons by (simp del: path_elems.simps)
qed

lemma filepath_Clean_append_dot:
  assumes "root \<noteq> []"
  shows "filepath_Clean (root @ ''/.'') = filepath_Clean root"
proof -
  obtain c cs where r: "root = c # cs"
    using assms by (cases root) auto
  have e: "path_elems (root @ ''/.'') = path_elems root @ [''.'']"
    using path_elems_append_sep [of root "''.''"] by (simp add: IsPathSeparator_def)
  have "foldl (clean_step b) [] (path_elems (root @ ''/.'')) = foldl (clean_step b) [] (path_elems root)" for b
    by (simp only: e foldl_append) simp
  then show ?thesis
    unfolding filepath_Clean_def r by simp
qed

lemma filepath_Join_dot: "filepath_Join [root, ''.''] = filepath_Clean root"
proof (cases "root = []")
  case True
  then show ?thesis
    by (simp add: filepath_Join.simps filepath_Clean_def IsPathSeparator_def)
next
  case False
  then show ?thesis
    using filepath_Clean_append_dot [OF False] by (simp add: filepath_Join.simps)
qed

text \<open>
  C9. Mount-root edge case: when the route-relative URL path cleans to \<^verbatim>\<open>.\<close>, or
  is the empty string (which \<^verbatim>\<open>filepath.Clean\<close> turns into \<^verbatim>\<open>.\<close>; it never returns
  the empty string), path resolution yields the mount's root: the cleaned
  \<^verbatim>\<open>rootPath\<close>, which is \<^verbatim>\<open>rootPath\<close> itself when that is written in clean form.
  Resolution is a total function: it does not fail.
\<close>

theorem mount_root_edge_case:
  assumes "filepath_Clean (ReplaceAll (route_relative f u) CHR ''/'' osPathSeparator) = ''.'' \<or>
           route_relative f u = []"
  shows "resolve_osPath f u = filepath_Clean (path f) \<and>
         (filepath_Clean (path f) = path f \<longrightarrow> resolve_osPath f u = path f)"
proof -
  have "filepath_Clean (ReplaceAll (route_relative f u) CHR ''/'' osPathSeparator) = ''.''"
    using assms by (auto simp: ReplaceAll_sep filepath_Clean_def)
  then have "resolve_osPath f u = filepath_Clean (path f)"
    by (simp add: resolve_osPath_def Let_def filepath_Join_dot)
  then show ?thesis
    by simp
qed

theorem mount_root_edge_case_witness:
  "resolve_osPath \<lparr>route = ''/files/'', path = ''/srv/data'', allowUpload = False, allowDelete = False\<rparr>
     ''/files/./'' = ''/srv/data'' \<and>
   resolve_osPath \<lparr>route = ''/files'', path = ''/srv/data'', allowUpload = False, allowDelete = False\<rparr>
     ''/files'' = ''/srv/data''"
proof -
  let ?f = "\<lparr>route = ''/files/'', path = ''/srv/data'', allowUpload = False, allowDelete = False\<rparr>"
  let ?g = "\<lparr>route = ''/files'', path = ''/srv/data'', allowUpload = False, allowDelete = False\<rparr>"
  have c: "filepath_Clean (path ?f) = path ?f" "filepath_Clean (path ?g) = path ?g"
    by (simp_all add: filepath_Clean_def IsPathSeparator_def)
  have a: "filepath_Clean (ReplaceAll (route_relative ?f ''/files/./'') CHR ''/'' osPathSeparator) = ''.'' \<or>
           route_relative ?f ''/files/./'' = []"
    by (simp add: route_relative_def HasPrefix_def TrimPrefix_def ReplaceAll_def filepath_Clean_def
        IsPathSeparator_def osPathSeparator_def)
  have b: "filepath_Clean (ReplaceAll (route_relative ?g ''/files'') CHR ''/'' osPathSeparator) = ''.'' \<or>
           route_relative ?g ''/files'' = []"
    by (simp add: route_relative_def HasPrefix_def TrimPrefix_def ReplaceAll_def filepath_Clean_def
        IsPathSeparator_def osPathSeparator_def)
  from mount_root_edge_case [OF a] c(1) have "resolve_osPath ?f ''/files/./'' = path ?f"
    by blast
  moreover from mount_root_edge_case [OF b] c(2) have "resolve_osPath ?g ''/files'' = path ?g"
    by blast
  ultimately show ?thesis
    by simp
qed

subsection \<open>Cleaning before joining\<close>

lemma path_elems_no_sep: "e \<in> set (path_elems p) \<Longrightarrow> CHR ''/'' \<notin> set e"
proof (induction p arbitrary: e)
  case Nil
  then show ?case by simp
next
  case (Cons c cs)
  obtain x xs where xs: "path_elems cs = x # xs"
    using path_elems_not_Nil [of cs] by (cases "path_elems cs") auto
  show ?case
    using Cons.prems Cons.IH xs
    by (auto simp: IsPathSeparator_def split: if_splits)
qed

lemma clean_step_rooted_plain:
  "list_all plain_elem out \<Longrightarrow> CHR ''/'' \<notin> set e \<Longrightarrow> list_all plain_elem (clean_step True out e)"
  by (cases out) (auto simp: plain_elem_def)

lemma foldl_clean_step_rooted_plain:
  "list_all plain_elem out \<Longrightarrow> (\<forall>e \<in> set es. CHR ''/'' \<notin> set e) \<Longrightarrow>
   list_all plain_elem (foldl (clean_step True) out es)"
proof (induction es arbitrary: out)
  case Nil
  then show ?case by simp
next
  case (Cons e es)
  have "list_all plain_elem (clean_step True out e)"
    using Cons.prems by (intro clean_step_rooted_plain) simp_all
  then show ?case
    using Cons.prems Cons.IH [of "clean_step True out e"] by (simp del: clean_step.simps)
qed

lemma foldl_clean_step_push:
  "list_all plain_elem es \<Longrightarrow> foldl (clean_step b) out es = rev es @ out"
  by (induction es arbitrary: out) (auto simp: plain_elem_def)

lemma path_elems_single: "CHR ''/'' \<notin> set e \<Longrightarrow> path_elems e = [e]"
  by (induction e) (auto simp: IsPathSeparator_def)

lemma path_elems_strings_Join:
  "es \<noteq> [] \<Longrightarrow> list_all (\<lambda>e. CHR ''/'' \<notin> set e) es \<Longrightarrow> path_elems (strings_Join es) = es"
proof (induction es rule: strings_Join.induct)
  case 1
  then show ?case by simp
next
  case (2 e)
  then show ?case by (simp add: path_elems_single)
next
  case (3 e f es)
  have "path_elems (e @ CHR ''/'' # strings_Join (f # es)) = path_elems e @ path_elems (strings_Join (f # es))"
    by (rule path_elems_append_sep)
  then show ?case
    using 3 by (simp add: path_elems_single del: path_elems.simps)
qed

lemma strings_Join_append:
  "a \<noteq> [] \<Longrightarrow> b \<noteq> [] \<Longrightarrow> strings_Join (a @ b) = strings_Join a @ CHR ''/'' # strings_Join b"
proof (induction a rule: strings_Join.induct)
  case 1
  then show ?case by simp
next
  case (2 e)
  then show ?case by (cases b) simp_all
next
  case (3 e f es)
  then show ?case by simp
qed

lemma filepath_Clean_rooted:
  "filepath_Clean (CHR ''/'' # rest) =
     CHR ''/'' # strings_Join (rev (foldl (clean_step True) [] (path_elems (CHR ''/'' # rest))))"
  by (simp add: filepath_Clean_def IsPathSeparator_def del: path_elems.simps)

lemma within_root_refl: "within_root root root"
  by (simp add: within_root_def)

lemma within_root_append_sep: "within_root root (root @ CHR ''/'' # x)"
  by (simp add: within_root_def IsPathSeparator_def)

lemma within_root_slash: "within_root ''/'' (CHR ''/'' # x)"
  by (cases x) (simp_all add: within_root_def IsPathSeparator_def)

text \<open>Cleaning before joining confines a rooted remainder: when the path left
  after the route is trimmed starts with a separator, and so does the mount's
  root, the resolved path is the cleaned root or continues it after a
  separator.\<close>

lemma Join_Clean_rooted_within:
  "within_root (filepath_Clean (CHR ''/'' # r0))
     (filepath_Join [CHR ''/'' # r0, filepath_Clean (CHR ''/'' # r1)])"
proof -
  let ?root = "CHR ''/'' # r0"
  let ?rel = "CHR ''/'' # r1"
  define S where "S = foldl (clean_step True) [] (path_elems ?root)"
  define out where "out = rev (foldl (clean_step True) [] (path_elems ?rel))"
  have clean_root: "filepath_Clean ?root = CHR ''/'' # strings_Join (rev S)"
    by (simp only: filepath_Clean_rooted S_def)
  have clean_rel: "filepath_Clean ?rel = CHR ''/'' # strings_Join out"
    by (simp only: filepath_Clean_rooted out_def)
  have plain_out: "list_all plain_elem out"
    unfolding out_def list_all_rev
    by (rule foldl_clean_step_rooted_plain) (simp_all add: path_elems_no_sep del: path_elems.simps)
  then have nosep_out: "list_all (\<lambda>e. CHR ''/'' \<notin> set e) out"
    by (simp add: list_all_iff plain_elem_def)
  have join: "filepath_Join [?root, filepath_Clean ?rel] =
      filepath_Clean (?root @ CHR ''/'' # CHR ''/'' # strings_Join out)"
    by (simp add: filepath_Join.simps clean_rel)
  have elems: "path_elems (?root @ CHR ''/'' # CHR ''/'' # strings_Join out) =
      path_elems ?root @ [] # path_elems (strings_Join out)"
    by (simp only: path_elems_append_sep) (simp add: IsPathSeparator_def)
  have rooted: "filepath_Clean (?root @ CHR ''/'' # CHR ''/'' # strings_Join out) =
      CHR ''/'' # strings_Join (rev (foldl (clean_step True) S ([] # path_elems (strings_Join out))))"
    using filepath_Clean_rooted [of "r0 @ CHR ''/'' # CHR ''/'' # strings_Join out"]
    by (simp only: append_Cons [symmetric] elems foldl_append S_def)
  show ?thesis
  proof (cases "out = []")
    case True
    have "foldl (clean_step True) S ([] # path_elems (strings_Join out)) = S"
      by (simp add: True)
    then show ?thesis
      by (simp only: join rooted clean_root within_root_refl)
  next
    case False
    have "path_elems (strings_Join out) = out"
      by (rule path_elems_strings_Join [OF False nosep_out])
    then have f: "foldl (clean_step True) S ([] # path_elems (strings_Join out)) = rev out @ S"
      by (simp add: foldl_clean_step_push [OF plain_out])
    show ?thesis
    proof (cases "S = []")
      case True
      then show ?thesis
        by (simp only: join rooted clean_root f) (simp add: within_root_slash)
    next
      case S: False
      have "strings_Join (rev S @ out) = strings_Join (rev S) @ CHR ''/'' # strings_Join out"
        by (rule strings_Join_append) (simp_all add: S False)
      then have "filepath_Join [?root, filepath_Clean ?rel] =
          filepath_Clean ?root @ CHR ''/'' # strings_Join out"
        by (simp only: join rooted clean_root f) simp
      then show ?thesis
        by (simp only: within_root_append_sep)
    qed
  qed
qed

lemma resolve_osPath_within_root:
  assumes "HasPrefix (route_relative f u) ''/''"
    and "HasPrefix (path f) ''/''"
  shows "within_root (filepath_Clean (path f)) (resolve_osPath f u)"
proof -
  obtain r1 where rel: "route_relative f u = CHR ''/'' # r1"
    using assms(1) by (cases "route_relative f u") (auto simp: HasPrefix_def)
  obtain r0 where root: "path f = CHR ''/'' # r0"
    using assms(2) by (cases "path f") (auto simp: HasPrefix_def)
  show ?thesis
    using Join_Clean_rooted_within [of r0 r1]
    by (simp add: resolve_osPath_def Let_def ReplaceAll_sep rel root)
qed

text \<open>
  C1, at the code. On the mount of \<^verbatim>\<open>/srv/data\<close> at the route \<^verbatim>\<open>/\<close>, the URL path
  \<^verbatim>\<open>/../../etc/passwd\<close> loses its leading \<^verbatim>\<open>/\<close> when the route is trimmed, so what
  is cleaned is the relative path \<^verbatim>\<open>../../etc/passwd\<close>, which \<^verbatim>\<open>filepath.Clean\<close>
  leaves as it is; joined onto the root it resolves to \<^verbatim>\<open>/etc/passwd\<close>, which is
  not within \<^verbatim>\<open>/srv/data\<close>. With deletes allowed, a DELETE request for that URL
  path removes the file \<^verbatim>\<open>/etc/passwd\<close>, and a request with the \<^verbatim>\<open>zip\<close> parameter is
  answered with the archive of \<^verbatim>\<open>/etc/passwd\<close>.
\<close>

theorem path_escapes_root:
  "route_relative (ex_mount False True) ''/../../etc/passwd'' = ''../../etc/passwd'' \<and>
   resolve_osPath (ex_mount False True) ''/../../etc/passwd'' = ''/etc/passwd'' \<and>
   \<not> within_root (path (ex_mount False True)) ''/etc/passwd'' \<and>
   nodes ex_world ''/etc/passwd'' = Some (File ''root:x:0:0'') \<and>
   nodes (fst (ServeHTTP (ex_mount False True) ex_world new_response
      (ex_request ''DELETE'' ''/../../etc/passwd'' Map.empty))) ''/etc/passwd'' = None \<and>
   body (snd (ServeHTTP (ex_mount False True) ex_world new_response
      (ex_request ''CONNECT'' ''/../../etc/passwd'' [''zip'' \<mapsto> [''true'']]))) =
     [Bytes ''zip of /etc/passwd'']"
  by code_simp

end
